theory Spec2Isabelle
  imports Complex_Main
begin

section \<open>Data exchanged with the collaborators\<close>

text \<open>
  The AWS SDK types hold their strings behind pointers (\<^verbatim>\<open>*string\<close>); a nil pointer is
  \<open>None\<close>, and dereferencing it panics. Go strings are byte sequences, as \<open>string\<close> is.
  A \<^verbatim>\<open>float64\<close> sample value is only ever passed through, never computed with.
\<close>

record Dimension =
  Name :: "string option"
  Value :: "string option"

record Metric =
  Namespace :: "string option"
  MetricName :: "string option"
  Dimensions :: "Dimension list"

record MetricDataResult =
  Id' :: "string option"
  Values :: "real list"

datatype error = Error string

text \<open>The zero value of \<^verbatim>\<open>types.Metric\<close>, which \<^verbatim>\<open>make\<close> fills a fresh slice with.\<close>

definition zeroMetric :: Metric where
  "zeroMetric = \<lparr>Namespace = None, MetricName = None, Dimensions = []\<rparr>"

section \<open>The Prometheus client library\<close>

text \<open>
  A descriptor as \<^verbatim>\<open>prometheus.NewDesc\<close> builds it; \<open>descErr\<close> says that the library
  recorded an error in it (an invalid name or label name). What the library accepts
  differs between its versions, and the snake-case conversion is the one of the strcase
  package: both are parameters of the model.
\<close>

record Desc =
  fqName :: string
  help' :: string
  variableLabels :: "string list"
  descErr :: bool

record clientlib =
  SnakeCase :: "string \<Rightarrow> string"
  invalidDesc :: "string \<Rightarrow> string list \<Rightarrow> bool"
  invalidLabelValue :: "string \<Rightarrow> bool"

definition NewDesc :: "clientlib \<Rightarrow> string \<Rightarrow> string \<Rightarrow> string list \<Rightarrow> Desc" where
  "NewDesc lib fq h labels =
     \<lparr>fqName = fq, help' = h, variableLabels = labels, descErr = invalidDesc lib fq labels\<rparr>"

text \<open>What travels over the channel: a \<^verbatim>\<open>prometheus.Metric\<close>.\<close>

datatype PMetric =
    ConstMetric Desc real "string list"
  | InvalidMetric Desc error

datatype numError = ErrSyntax | ErrRange

datatype panic =
    NotSameLength nat nat
  | AtoiError numError
  | NilDereference
  | SliceOutOfRange
  | IndexOutOfRange int nat
  | DescHasError
  | InconsistentCardinality
  | InvalidLabelValue

text \<open>
  \<^verbatim>\<open>prometheus.MustNewConstMetric\<close> panics where \<^verbatim>\<open>NewConstMetric\<close> returns an error:
  the descriptor carries an error, the number of label values is not the number of the
  descriptor's variable labels, or a label value is rejected.
\<close>

definition MustNewConstMetric :: "clientlib \<Rightarrow> Desc \<Rightarrow> real \<Rightarrow> string list \<Rightarrow> panic + PMetric" where
  "MustNewConstMetric lib desc v lvs =
     (if descErr desc then Inl DescHasError
      else if length lvs \<noteq> length (variableLabels desc) then Inl InconsistentCardinality
      else if list_ex (invalidLabelValue lib) lvs then Inl InvalidLabelValue
      else Inr (ConstMetric desc v lvs))"

section \<open>Standard library functions used by the collector\<close>

subsection \<open>strconv.Atoi\<close>

definition isDigit :: "char \<Rightarrow> bool" where
  "isDigit c = (48 \<le> (of_char c :: nat) \<and> (of_char c :: nat) \<le> 57)"

definition maxUint64 :: nat where
  "maxUint64 = 2 ^ 64 - 1"

text \<open>The digit loop of \<^verbatim>\<open>ParseUint(s, 10, 64)\<close>.\<close>

fun parseDigits :: "string \<Rightarrow> nat \<Rightarrow> numError + nat" where
  "parseDigits [] n = Inr n"
| "parseDigits (c # cs) n =
     (if \<not> isDigit c then Inl ErrSyntax
      else if maxUint64 div 10 + 1 \<le> n then Inl ErrRange
      else let n1 = n * 10 + ((of_char c :: nat) - 48)
           in if maxUint64 < n1 then Inl ErrRange else parseDigits cs n1)"

text \<open>\<^verbatim>\<open>Atoi\<close> on a platform whose \<^verbatim>\<open>int\<close> has 64 bits: an optional sign, then digits.\<close>

definition Atoi :: "string \<Rightarrow> numError + int" where
  "Atoi s =
     (case s of
        [] \<Rightarrow> Inl ErrSyntax
      | c # cs \<Rightarrow>
          let neg = (c = CHR ''-'');
              s' = (if c = CHR ''+'' \<or> c = CHR ''-'' then cs else s)
          in if s' = [] then Inl ErrSyntax
             else (case parseDigits s' 0 of
                     Inl e \<Rightarrow> Inl e
                   | Inr un \<Rightarrow>
                       if \<not> neg \<and> 2 ^ 63 \<le> un then Inl ErrRange
                       else if neg \<and> 2 ^ 63 < un then Inl ErrRange
                       else Inr (if neg then - int un else int un)))"

subsection \<open>strings.Join\<close>

fun Join :: "string list \<Rightarrow> string \<Rightarrow> string" where
  "Join [] sep = []"
| "Join [x] sep = x"
| "Join (x # y # ys) sep = x @ sep @ Join (y # ys) sep"

subsection \<open>The regular expression \<^verbatim>\<open>[^a-zA-Z0-9_:]\<close>\<close>

definition inClass :: "char \<Rightarrow> bool" where
  "inClass c =
     (let n = (of_char c :: nat)
      in (97 \<le> n \<and> n \<le> 122) \<or> (65 \<le> n \<and> n \<le> 90) \<or> (48 \<le> n \<and> n \<le> 57)
         \<or> c = CHR ''_'' \<or> c = CHR '':'')"

definition byteIn :: "nat \<Rightarrow> nat \<Rightarrow> char \<Rightarrow> bool" where
  "byteIn lo hi c = (lo \<le> (of_char c :: nat) \<and> (of_char c :: nat) \<le> hi)"

text \<open>
  The regexp package reads its input rune by rune (\<^verbatim>\<open>utf8.DecodeRuneInString\<close>):
  \<open>runeWidth\<close> is the number of bytes of the first rune, 1 for a byte that starts no
  valid UTF-8 sequence.
\<close>

fun runeWidth :: "string \<Rightarrow> nat" where
  "runeWidth [] = 0"
| "runeWidth (c # cs) =
     (let b = (of_char c :: nat)
      in if b < 128 then 1
         else if b < 194 \<or> 244 < b then 1
         else let sz = (if b < 224 then 2 else if b < 240 then 3 else 4 :: nat);
                  lo = (if b = 224 then 160 else if b = 240 then 144 else 128);
                  hi = (if b = 237 then 159 else if b = 244 then 143 else 191)
              in if length (c # cs) < sz then 1
                 else if \<not> byteIn lo hi (cs ! 0) then 1
                 else if sz \<le> 2 then 2
                 else if \<not> byteIn 128 191 (cs ! 1) then 1
                 else if sz \<le> 3 then 3
                 else if \<not> byteIn 128 191 (cs ! 2) then 1
                 else 4)"

text \<open>
  \<^verbatim>\<open>prometheusMetricNameRegexp.ReplaceAllString(s, "_")\<close>: every rune outside the class
  becomes one underscore.
\<close>

fun ReplaceAllString :: "string \<Rightarrow> string" where
  "ReplaceAllString [] = []"
| "ReplaceAllString (c # cs) =
     (if inClass c then c # ReplaceAllString cs
      else CHR ''_'' # ReplaceAllString (drop (runeWidth (c # cs) - 1) cs))"

section \<open>The collector\<close>

definition batchSize :: nat where
  "batchSize = 500"

text \<open>
  The reporter is a collaborator: its two methods are parameters, and they may depend on
  and change a state of the reporter's own (the network, the clock).
\<close>

record 'r reporterOps =
  ListMetrics :: "'r \<Rightarrow> string \<Rightarrow> string \<Rightarrow> (error + Metric list) \<times> 'r"
  GetMetricsResults :: "'r \<Rightarrow> Metric list \<Rightarrow> (error + MetricDataResult list) \<times> 'r"

text \<open>
  The collector struct, with the reporter's state in the place of the reporter, and the
  two things the properties below observe: \<open>ch\<close>, what has been sent on the channel so far, and
  \<open>fetched\<close>, the batches \<^verbatim>\<open>GetMetricsResults\<close> has been called with so far.
\<close>

record 'r collector =
  reporter :: 'r
  namespace :: string
  metricName :: string
  descMap :: "string \<rightharpoonup> Desc"
  errDesc :: Desc
  ch :: "PMetric list"
  fetched :: "Metric list list"

datatype 'a result = Returned 'a | Panicked panic 'a

definition newCollector :: "clientlib \<Rightarrow> 'r \<Rightarrow> string \<Rightarrow> string \<Rightarrow> 'r collector" where
  "newCollector lib r ns mn =
     \<lparr>reporter = r, namespace = ns, metricName = mn, descMap = Map.empty,
      errDesc = NewDesc lib ''cloudwatch_error'' ''Error collecting metrics'' [],
      ch = [], fetched = []\<rparr>"

text \<open>The loop of \<^verbatim>\<open>collectMetric\<close> over the dimensions; \<open>None\<close> is a nil dereference.\<close>

fun labelPairs :: "Dimension list \<Rightarrow> (string list \<times> string list) option" where
  "labelPairs [] = Some ([], [])"
| "labelPairs (d # ds) =
     (case Name d of
        None \<Rightarrow> None
      | Some n \<Rightarrow>
          (case Value d of
             None \<Rightarrow> None
           | Some v \<Rightarrow>
               (case labelPairs ds of
                  None \<Rightarrow> None
                | Some (lns, lvs) \<Rightarrow> Some (n # lns, v # lvs))))"

definition collectMetric :: "clientlib \<Rightarrow> 'r collector \<Rightarrow> Metric \<Rightarrow> real \<Rightarrow> 'r collector result" where
  "collectMetric lib c m v =
     (case Namespace m of
        None \<Rightarrow> Panicked NilDereference c
      | Some ns \<Rightarrow>
     (case MetricName m of
        None \<Rightarrow> Panicked NilDereference c
      | Some mn \<Rightarrow>
     (case labelPairs (Dimensions m) of
        None \<Rightarrow> Panicked NilDereference c
      | Some (lns, lvs) \<Rightarrow>
          let namespace' = SnakeCase lib (ReplaceAllString ns);
              name = SnakeCase lib (ReplaceAllString mn);
              key = Join lns '' '';
              (desc, c') =
                (case descMap c key of
                   Some d \<Rightarrow> (d, c)
                 | None \<Rightarrow>
                     let d = NewDesc lib (namespace' @ ''_'' @ name)
                               (''Cloudwatch Metric '' @ ns @ ''/'' @ mn) lns
                     in (d, c\<lparr>descMap := (descMap c)(key \<mapsto> d)\<rparr>))
          in (case MustNewConstMetric lib desc v lvs of
                Inl p \<Rightarrow> Panicked p c'
              | Inr pm \<Rightarrow> Returned (c'\<lparr>ch := ch c' @ [pm]\<rparr>)))))"

fun sprintDims :: "Dimension list \<Rightarrow> string \<Rightarrow> string option" where
  "sprintDims [] out = Some out"
| "sprintDims (d # ds) out =
     (case Name d of
        None \<Rightarrow> None
      | Some n \<Rightarrow>
          (case Value d of
             None \<Rightarrow> None
           | Some v \<Rightarrow> sprintDims ds (out @ n @ ''='' @ v @ '','')))"

text \<open>\<^verbatim>\<open>strconv.Atoi((*result.Id)[1:])\<close>, with the panics of the dereference and the slice.\<close>

definition parseId :: "string option \<Rightarrow> panic + int" where
  "parseId idp =
     (case idp of
        None \<Rightarrow> Inl NilDereference
      | Some s \<Rightarrow>
          (case s of
             [] \<Rightarrow> Inl SliceOutOfRange
           | _ # suffix \<Rightarrow>
               (case Atoi suffix of
                  Inl e \<Rightarrow> Inl (AtoiError e)
                | Inr idx \<Rightarrow> Inr idx)))"

text \<open>The loop of \<^verbatim>\<open>collectBatch\<close> over the results.\<close>

fun resultsLoop :: "clientlib \<Rightarrow> Metric list \<Rightarrow> MetricDataResult list \<Rightarrow> 'r collector
                    \<Rightarrow> 'r collector result" where
  "resultsLoop lib metrics [] c = Returned c"
| "resultsLoop lib metrics (result # rest) c =
     (case parseId (Id' result) of
        Inl p \<Rightarrow> Panicked p c
      | Inr idx \<Rightarrow>
          if idx < 0 \<or> int (length metrics) \<le> idx
          then Panicked (IndexOutOfRange idx (length metrics)) c
          else let m = metrics ! nat idx
               in (case sprintDims (Dimensions m) [] of
                     None \<Rightarrow> Panicked NilDereference c
                   | Some _ \<Rightarrow>
                       if length (Values result) = 0 then resultsLoop lib metrics rest c
                       else (case collectMetric lib c m (Values result ! 0) of
                               Panicked p c' \<Rightarrow> Panicked p c'
                             | Returned c' \<Rightarrow> resultsLoop lib metrics rest c')))"

definition collectBatch :: "clientlib \<Rightarrow> 'r reporterOps \<Rightarrow> 'r collector \<Rightarrow> Metric list
                            \<Rightarrow> 'r collector result" where
  "collectBatch lib rep c metrics =
     (if length metrics = 0 then Returned c
      else (case GetMetricsResults rep (reporter c) metrics of
              (res, r') \<Rightarrow>
                let c1 = c\<lparr>reporter := r', fetched := fetched c @ [metrics]\<rparr>
                in (case res of
                      Inl e \<Rightarrow> Returned (c1\<lparr>ch := ch c1 @ [InvalidMetric (errDesc c1) e]\<rparr>)
                    | Inr results \<Rightarrow>
                        if length results \<noteq> length metrics
                        then Panicked (NotSameLength (length results) (length metrics)) c1
                        else resultsLoop lib metrics results c1)))"

text \<open>
  The slice expression \<^verbatim>\<open>batch[:i]\<close> on a slice of capacity \<open>batchSize\<close>: it may reach
  beyond the length, into the zero values the backing array was made with.
\<close>

definition sliceTo :: "Metric list \<Rightarrow> nat \<Rightarrow> panic + Metric list" where
  "sliceTo batch i =
     (if batchSize < i then Inl SliceOutOfRange
      else Inr (take i (batch @ replicate (batchSize - length batch) zeroMetric)))"

text \<open>
  The \<^verbatim>\<open>range\<close> loop of \<^verbatim>\<open>Collect\<close> with its buffer \<open>batch\<close> and index \<open>i\<close>, and the
  call after the loop.
\<close>

fun rangeLoop :: "clientlib \<Rightarrow> 'r reporterOps \<Rightarrow> Metric list \<Rightarrow> Metric list \<Rightarrow> nat
                  \<Rightarrow> 'r collector \<Rightarrow> 'r collector result" where
  "rangeLoop lib rep [] batch i c =
     (case sliceTo batch i of
        Inl p \<Rightarrow> Panicked p c
      | Inr b \<Rightarrow> collectBatch lib rep c b)"
| "rangeLoop lib rep (metric # rest) batch i c =
     (if length batch \<le> i then Panicked (IndexOutOfRange (int i) (length batch)) c
      else let batch' = batch[i := metric];
               i' = i + 1
           in if i' < batchSize then rangeLoop lib rep rest batch' i' c
              else (case collectBatch lib rep c batch' of
                      Panicked p c' \<Rightarrow> Panicked p c'
                    | Returned c' \<Rightarrow> rangeLoop lib rep rest batch' 0 c'))"

definition Collect :: "clientlib \<Rightarrow> 'r reporterOps \<Rightarrow> 'r collector \<Rightarrow> 'r collector result" where
  "Collect lib rep c =
     (case ListMetrics rep (reporter c) (namespace c) (metricName c) of
        (res, r') \<Rightarrow>
          let c1 = c\<lparr>reporter := r'\<rparr>
          in (case res of
                Inl e \<Rightarrow> Returned (c1\<lparr>ch := ch c1 @ [InvalidMetric (errDesc c1) e]\<rparr>)
              | Inr metrics \<Rightarrow>
                  let length' = (if batchSize < length metrics then batchSize else length metrics)
                  in rangeLoop lib rep metrics (replicate length' zeroMetric) 0 c1))"


section \<open>Notions used in the statements\<close>

text \<open>A metric none of whose pointers is nil.\<close>

definition wellFormed :: "Metric \<Rightarrow> bool" where
  "wellFormed m = (Namespace m \<noteq> None \<and> MetricName m \<noteq> None \<and> labelPairs (Dimensions m) \<noteq> None)"

definition labelNames :: "Metric \<Rightarrow> string list" where
  "labelNames m = (case labelPairs (Dimensions m) of None \<Rightarrow> [] | Some (lns, lvs) \<Rightarrow> lns)"

definition labelValues :: "Metric \<Rightarrow> string list" where
  "labelValues m = (case labelPairs (Dimensions m) of None \<Rightarrow> [] | Some (lns, lvs) \<Rightarrow> lvs)"

text \<open>The descriptor \<open>collectMetric\<close> builds for a metric on a cache miss.\<close>

definition descFor :: "clientlib \<Rightarrow> Metric \<Rightarrow> Desc" where
  "descFor lib m =
     NewDesc lib (SnakeCase lib (ReplaceAllString (the (Namespace m))) @ ''_''
                  @ SnakeCase lib (ReplaceAllString (the (MetricName m))))
       (''Cloudwatch Metric '' @ the (Namespace m) @ ''/'' @ the (MetricName m))
       (labelNames m)"

text \<open>The descriptor a metric is sent under: the cached one if its key is cached.\<close>

definition descUsed :: "clientlib \<Rightarrow> (string \<rightharpoonup> Desc) \<Rightarrow> Metric \<Rightarrow> Desc" where
  "descUsed lib dm m =
     (case dm (Join (labelNames m) '' '') of Some d \<Rightarrow> d | None \<Rightarrow> descFor lib m)"

text \<open>
  The library accepts the sample of a metric under the cache \<open>dm\<close>: no nil pointer, no
  error in the descriptor, as many label values as label names, no rejected value.
\<close>

definition accepted :: "clientlib \<Rightarrow> (string \<rightharpoonup> Desc) \<Rightarrow> Metric \<Rightarrow> bool" where
  "accepted lib dm m =
     (wellFormed m \<and> \<not> descErr (descUsed lib dm m)
      \<and> length (variableLabels (descUsed lib dm m)) = length (labelNames m)
      \<and> \<not> list_ex (invalidLabelValue lib) (labelValues m))"

text \<open>The state a run ends in, returned or panicked.\<close>

fun final :: "'a result \<Rightarrow> 'a" where
  "final (Returned c) = c"
| "final (Panicked p c) = c"

text \<open>
  Modelled from the spec: the reporter, which is not among the sources, gives the query
  for the metric at position \<open>i\<close> of a batch the id \<^verbatim>\<open>n<index>\<close>, the letter n and
  the position in decimal.
\<close>

definition digitChar :: "nat \<Rightarrow> char" where
  "digitChar d = ''0123456789'' ! d"

function decimal :: "nat \<Rightarrow> string" where
  "decimal n = (if n < 10 then [digitChar n] else decimal (n div 10) @ [digitChar (n mod 10)])"
  by pat_completeness auto
termination
  by (relation "measure id") auto

declare decimal.simps [simp del]

definition positionalId :: "nat \<Rightarrow> string" where
  "positionalId i = CHR ''n'' # decimal i"

text \<open>
  The batching in the words of the spec: the sequence is cut into consecutive batches of
  at most \<open>n\<close> elements, and the batches are processed one after the other, a panic
  ending the run.
\<close>

function chunks :: "nat \<Rightarrow> 'a list \<Rightarrow> 'a list list" where
  "chunks n xs = (if n = 0 \<or> xs = [] then [] else take n xs # chunks n (drop n xs))"
  by pat_completeness auto
termination
  by (relation "measure (\<lambda>(n, xs). length xs)") auto

declare chunks.simps [simp del]

fun runBatches :: "clientlib \<Rightarrow> 'r reporterOps \<Rightarrow> 'r collector \<Rightarrow> Metric list list
                   \<Rightarrow> 'r collector result" where
  "runBatches lib rep c [] = Returned c"
| "runBatches lib rep c (b # bs) =
     (case collectBatch lib rep c b of
        Panicked p c' \<Rightarrow> Panicked p c'
      | Returned c' \<Rightarrow> runBatches lib rep c' bs)"

text \<open>
  Metrics whose cache keys agree have equally many dimensions: then a descriptor cached
  for one of them has the number of labels the others need.
\<close>

definition sameShape :: "Metric list \<Rightarrow> bool" where
  "sameShape ms =
     list_all (\<lambda>m. list_all (\<lambda>m'. Join (labelNames m) '' '' = Join (labelNames m') '' ''
                                  \<longrightarrow> length (labelNames m) = length (labelNames m')) ms) ms"




text \<open>A name without a space.\<close>

definition spaceFree :: "string \<Rightarrow> bool" where
  "spaceFree n = (CHR '' '' \<notin> set n)"


text \<open>
  What the cache key gives of a sample, whatever the names are: as many label values as
  label names, the values being the dimension values of a listed metric whose dimension
  names, joined by spaces, are the descriptor's label names, joined by spaces.
\<close>

fun keyAligned :: "Metric list \<Rightarrow> PMetric \<Rightarrow> bool" where
  "keyAligned ms (ConstMetric d v lvs) =
     (length lvs = length (variableLabels d)
      \<and> list_ex (\<lambda>m. lvs = labelValues m
                      \<and> Join (variableLabels d) '' '' = Join (labelNames m) '' '') ms)"
| "keyAligned ms (InvalidMetric d e) = True"

text \<open>Every cached descriptor sits under the key its own label names give.\<close>

definition keyed :: "(string \<rightharpoonup> Desc) \<Rightarrow> bool" where
  "keyed dm = (\<forall>k d. dm k = Some d \<longrightarrow> Join (variableLabels d) '' '' = k)"

text \<open>
  From \<open>c\<close> to \<open>c'\<close> the channel only got longer and the cache kept its entries; and
  if the cache of \<open>c\<close> is keyed so is the cache of \<open>c'\<close>, and what was sent is aligned
  as far as the key tells.
\<close>

definition grows :: "Metric list \<Rightarrow> 'r collector \<Rightarrow> 'r collector \<Rightarrow> bool" where
  "grows ms c c' =
     (\<exists>xs. ch c' = ch c @ xs \<and> descMap c \<subseteq>\<^sub>m descMap c'
        \<and> (keyed (descMap c) \<longrightarrow> keyed (descMap c') \<and> list_all (keyAligned ms) xs))"

section \<open>Concrete collaborators and inputs\<close>

text \<open>
  A library that accepts every descriptor and label value and whose snake case is the
  one of the strcase package on ASCII strings, its \<^verbatim>\<open>delimiterCase\<close> with the
  underscore: the string is trimmed, \<open>prev\<close> and \<open>curr\<close> start as the zero rune, an
  underscore is put before an upper-case letter that follows a lower-case one or that
  ends a run of upper-case letters, and a run of delimiters gives one underscore. And
  reporters over a state that counts the calls made: one whose listing fails, and one
  that lists a fixed sequence of metrics and answers a batch with
  a fixed sequence of results.
\<close>

definition isUpper :: "char \<Rightarrow> bool" where
  "isUpper c = (65 \<le> (of_char c :: nat) \<and> (of_char c :: nat) \<le> 90)"

definition isLower :: "char \<Rightarrow> bool" where
  "isLower c = (97 \<le> (of_char c :: nat) \<and> (of_char c :: nat) \<le> 122)"

definition toLower :: "char \<Rightarrow> char" where
  "toLower c =
     (case map_of (zip ''ABCDEFGHIJKLMNOPQRSTUVWXYZ'' ''abcdefghijklmnopqrstuvwxyz'') c of
        Some l \<Rightarrow> l
      | None \<Rightarrow> c)"

definition isSpace :: "char \<Rightarrow> bool" where
  "isSpace c = (c = CHR '' '' \<or> c = CHR 0x09 \<or> c = CHR 0x0A \<or> c = CHR 0x0D)"

definition isDelimiter :: "char \<Rightarrow> bool" where
  "isDelimiter c = (c = CHR ''-'' \<or> c = CHR ''_'' \<or> isSpace c)"

definition asciiSpace :: "char \<Rightarrow> bool" where
  "asciiSpace c = (c = CHR '' '' \<or> (9 \<le> (of_char c :: nat) \<and> (of_char c :: nat) \<le> 13))"

definition TrimSpace :: "string \<Rightarrow> string" where
  "TrimSpace s = rev (dropWhile asciiSpace (rev (dropWhile asciiSpace s)))"

fun delimiterLoop :: "char \<Rightarrow> char \<Rightarrow> string \<Rightarrow> string" where
  "delimiterLoop prv cur [] =
     (if isUpper cur \<and> isLower prv \<and> prv \<noteq> CHR 0x00 then ''_'' else []) @ [toLower cur]"
| "delimiterLoop prv cur (nxt # rest) =
     (if isDelimiter cur then (if \<not> isDelimiter prv then ''_'' else [])
      else if isUpper cur
      then (if isLower prv \<or> (isUpper prv \<and> isLower nxt) then ''_'' else [])
           @ [toLower cur]
      else if cur \<noteq> CHR 0x00 then [toLower cur]
      else [])
     @ delimiterLoop cur nxt rest"

definition snake :: "string \<Rightarrow> string" where
  "snake s =
     (let t = TrimSpace s
      in if t = [] then [] else delimiterLoop (CHR 0x00) (CHR 0x00) t)"

definition plainLib :: clientlib where
  "plainLib = \<lparr>SnakeCase = snake, invalidDesc = (\<lambda>fq labels. False),
                invalidLabelValue = (\<lambda>v. False)\<rparr>"

definition failingList :: "nat reporterOps" where
  "failingList = \<lparr>ListMetrics = (\<lambda>r ns mn. (Inl (Error ''AccessDenied''), Suc r)),
                   GetMetricsResults = (\<lambda>r batch. (Inr [], Suc r))\<rparr>"

definition fixedReporter :: "Metric list \<Rightarrow> MetricDataResult list \<Rightarrow> nat reporterOps" where
  "fixedReporter ms results =
     \<lparr>ListMetrics = (\<lambda>r ns mn. (Inr ms, Suc r)),
      GetMetricsResults = (\<lambda>r batch. (Inr results, Suc r))\<rparr>"

definition dim :: "string \<Rightarrow> string \<Rightarrow> Dimension" where
  "dim n v = \<lparr>Name = Some n, Value = Some v\<rparr>"

definition metric :: "string \<Rightarrow> string \<Rightarrow> Dimension list \<Rightarrow> Metric" where
  "metric ns mn ds = \<lparr>Namespace = Some ns, MetricName = Some mn, Dimensions = ds\<rparr>"

definition queryResult :: "string \<Rightarrow> real list \<Rightarrow> MetricDataResult" where
  "queryResult i vs = \<lparr>Id' = Some i, Values = vs\<rparr>"

text \<open>Two metrics of one instance-wide shape, as the test inserts them.\<close>

definition netIn :: Metric where
  "netIn = metric ''AWS/EC2'' ''NetworkIn'' [dim ''InstanceId'' ''i-1'']"

definition netOut :: Metric where
  "netOut = metric ''AWS/EC2'' ''NetworkOut'' [dim ''InstanceId'' ''i-2'']"

definition fresh :: "nat collector" where
  "fresh = newCollector plainLib 0 ''AWS/EC2'' ''*''"

text \<open>A reporter in the manner of the test's mock: result \<open>i\<close> has the id of position \<open>i\<close>.\<close>

definition mockReporter :: "Metric list \<Rightarrow> nat reporterOps" where
  "mockReporter ms =
     \<lparr>ListMetrics = (\<lambda>r ns mn. (Inr ms, Suc r)),
      GetMetricsResults =
        (\<lambda>r batch. (Inr (map (\<lambda>i. queryResult (positionalId i) [real i]) [0..<length batch]),
                     Suc r))\<rparr>"

text \<open>
  A reporter whose first fetch fails and whose later fetches answer as the mock does,
  and a full batch.
\<close>

definition flakyReporter :: "Metric list \<Rightarrow> nat reporterOps" where
  "flakyReporter ms =
     \<lparr>ListMetrics = (\<lambda>r ns mn. (Inr ms, Suc r)),
      GetMetricsResults =
        (\<lambda>r batch. (if r = 1 then Inl (Error ''Throttling'')
                     else Inr (map (\<lambda>i. queryResult (positionalId i) [real i])
                                  [0..<length batch]),
                     Suc r))\<rparr>"

definition fullBatch :: "Metric list" where
  "fullBatch = replicate batchSize netIn"

text \<open>
  The descriptor the collector builds for \<open>netIn\<close>, and metrics that differ in their
  instance only.
\<close>

definition netInDesc :: Desc where
  "netInDesc = \<lparr>fqName = ''aws_ec2_network_in'', help' = ''Cloudwatch Metric AWS/EC2/NetworkIn'',
                 variableLabels = [''InstanceId''], descErr = False\<rparr>"

definition inst :: "string \<Rightarrow> Metric" where
  "inst i = metric ''AWS/EC2'' ''NetworkIn'' [dim ''InstanceId'' i]"





section \<open>Failure of the listing\<close>

text \<open>
  C2. When \<^verbatim>\<open>ListMetrics\<close> fails, \<open>Collect\<close> returns after sending exactly one metric,
  the invalid metric that carries the error under the collector's error descriptor: no
  batch is fetched, no data sample is sent, and the descriptor cache is untouched.
\<close>

theorem Collect_list_error:
  assumes "ListMetrics rep (reporter c) (namespace c) (metricName c) = (Inl e, r')"
  shows "Collect lib rep c = Returned (c\<lparr>reporter := r', ch := ch c @ [InvalidMetric (errDesc c) e]\<rparr>)"
  using assms by (simp add: Collect_def)

theorem Collect_list_error_witness:
  "ListMetrics failingList (reporter (newCollector plainLib (0::nat) ''AWS/EC2'' ''*''))
     (namespace (newCollector plainLib (0::nat) ''AWS/EC2'' ''*''))
     (metricName (newCollector plainLib (0::nat) ''AWS/EC2'' ''*''))
     = (Inl (Error ''AccessDenied''), 1)
   \<and> Collect plainLib failingList (newCollector plainLib (0::nat) ''AWS/EC2'' ''*'')
     = Returned ((newCollector plainLib (0::nat) ''AWS/EC2'' ''*'')
         \<lparr>reporter := 1,
          ch := [InvalidMetric (errDesc (newCollector plainLib (0::nat) ''AWS/EC2'' ''*''))
                   (Error ''AccessDenied'')]\<rparr>)"
proof -
  have h: "ListMetrics failingList (reporter (newCollector plainLib (0::nat) ''AWS/EC2'' ''*''))
     (namespace (newCollector plainLib (0::nat) ''AWS/EC2'' ''*''))
     (metricName (newCollector plainLib (0::nat) ''AWS/EC2'' ''*''))
     = (Inl (Error ''AccessDenied''), 1)"
    by (simp add: failingList_def newCollector_def)
  show ?thesis
    using h Collect_list_error [OF h, of plainLib] by (simp add: newCollector_def)
qed

section \<open>Auxiliary facts\<close>

lemma sprintDims_labelPairs: "(sprintDims ds out = None) = (labelPairs ds = None)"
  by (induction ds arbitrary: out) (auto split: option.splits)

lemma labelPairs_length:
  "labelPairs ds = Some (lns, lvs) \<Longrightarrow> length lns = length ds \<and> length lvs = length ds"
  by (induction ds arbitrary: lns lvs) (auto split: option.splits)

lemma resultsLoop_not_same_length:
  "resultsLoop lib ms rs c = Panicked p c' \<Longrightarrow> p \<noteq> NotSameLength a b"
proof (induction rs arbitrary: c)
  case Nil
  then show ?case by simp
next
  case (Cons r rs)
  then show ?case
    by (auto simp: parseId_def collectMetric_def MustNewConstMetric_def Let_def
        split: sum.splits option.splits list.splits if_splits result.splits prod.splits)
qed

lemma collectMetric_accepted:
  assumes "accepted lib (descMap c) m"
  shows "collectMetric lib c m v =
           Returned (c\<lparr>descMap := (descMap c)(Join (labelNames m) '' '' \<mapsto> descUsed lib (descMap c) m),
                       ch := ch c @ [ConstMetric (descUsed lib (descMap c) m) v (labelValues m)]\<rparr>)"
proof -
  have "(descMap c)(k \<mapsto> d) = descMap c" if "descMap c k = Some d" for k d
    using that by (simp add: map_upd_triv)
  then show ?thesis
    using assms
    by (auto simp: accepted_def wellFormed_def collectMetric_def descUsed_def descFor_def
        labelNames_def labelValues_def MustNewConstMetric_def Let_def dest: labelPairs_length
        split: option.splits)
qed

lemma collectMetric_not_accepted:
  assumes "\<not> accepted lib (descMap c) m"
  shows "\<exists>p c'. collectMetric lib c m v = Panicked p c' \<and> ch c' = ch c"
  using assms
  by (auto simp: accepted_def wellFormed_def collectMetric_def descUsed_def descFor_def
      labelNames_def labelValues_def MustNewConstMetric_def Let_def dest: labelPairs_length
      split: option.splits)

subsection \<open>Decimal ids are read back by \<open>Atoi\<close>\<close>

lemma digitChar_value: "d < 10 \<Longrightarrow> (of_char (digitChar d) :: nat) = 48 + d"
proof -
  assume "d < 10"
  then have "d \<in> {0, 1, 2, 3, 4, 5, 6, 7, 8, 9}" by auto
  then show ?thesis by (auto simp: digitChar_def)
qed

lemma parseDigits_append:
  "parseDigits (xs @ ys) n = (case parseDigits xs n of Inl e \<Rightarrow> Inl e | Inr k \<Rightarrow> parseDigits ys k)"
  by (induction xs arbitrary: n) (auto simp: Let_def)

lemma parseDigits_digit:
  assumes "d < 10" and "n * 10 + d \<le> maxUint64"
  shows "parseDigits [digitChar d] n = Inr (n * 10 + d)"
proof -
  have "n \<le> maxUint64 div 10" using assms by linarith
  then have "\<not> maxUint64 div 10 + 1 \<le> n" by linarith
  then show ?thesis
    using assms by (simp add: isDigit_def digitChar_value Let_def)
qed


lemma parseDigits_decimal: "n \<le> maxUint64 \<Longrightarrow> parseDigits (decimal n) 0 = Inr n"
proof (induction n rule: decimal.induct)
  case (1 n)
  show ?case
  proof (cases "n < 10")
    case True
    then show ?thesis
      using parseDigits_digit [of n 0] "1.prems" by (subst decimal.simps) simp
  next
    case False
    have "parseDigits (decimal (n div 10)) 0 = Inr (n div 10)"
      using "1.IH" False "1.prems" by simp
    moreover have "parseDigits [digitChar (n mod 10)] (n div 10) = Inr n"
      using parseDigits_digit [of "n mod 10" "n div 10"] "1.prems" by simp
    ultimately show ?thesis
      using False by (subst decimal.simps) (simp add: parseDigits_append)
  qed
qed

lemma decimal_not_Nil: "decimal n \<noteq> []"
  by (subst decimal.simps) simp

lemma decimal_first_digit: "isDigit (hd (decimal n))"
proof (induction n rule: decimal.induct)
  case (1 n)
  show ?case
  proof (cases "n < 10")
    case True
    then show ?thesis by (subst decimal.simps) (simp add: isDigit_def digitChar_value)
  next
    case False
    then show ?thesis using "1.IH" decimal_not_Nil [of "n div 10"]
      by (subst decimal.simps) simp
  qed
qed

lemma Atoi_decimal: "n < 2 ^ 63 \<Longrightarrow> Atoi (decimal n) = Inr (int n)"
proof -
  assume n: "n < 2 ^ 63"
  obtain c cs where cs: "decimal n = c # cs"
    using decimal_not_Nil [of n] by (cases "decimal n") auto
  have "isDigit c" using decimal_first_digit [of n] cs by simp
  then have "c \<noteq> CHR ''+''" "c \<noteq> CHR ''-''" by (auto simp: isDigit_def)
  moreover have "parseDigits (c # cs) 0 = Inr n"
    using parseDigits_decimal [of n] n cs by (simp add: maxUint64_def)
  ultimately show ?thesis
    using n cs by (simp add: Atoi_def)
qed

lemma parseId_positionalId: "i < 2 ^ 63 \<Longrightarrow> parseId (Some (positionalId i)) = Inr (int i)"
  by (simp add: parseId_def positionalId_def Atoi_decimal)

subsection \<open>Unfolding the concrete collaborators\<close>

lemmas eval_defs = plainLib_def fixedReporter_def failingList_def dim_def metric_def queryResult_def
  netIn_def netOut_def fresh_def newCollector_def NewDesc_def

lemmas lib_eval = isUpper_def isLower_def toLower_def isSpace_def isDelimiter_def asciiSpace_def
  TrimSpace_def snake_def inClass_def accepted_def wellFormed_def
  descUsed_def descFor_def labelNames_def labelValues_def MustNewConstMetric_def
  parseId_def Atoi_def isDigit_def maxUint64_def

section \<open>One result of a fetched batch\<close>



section \<open>Decoding the position from the id\<close>

text \<open>
  C6. The position is read from the id by dropping its first byte and parsing the rest as
  a decimal integer: the id \<^verbatim>\<open>n<index>\<close> of position \<open>i\<close> decodes to \<open>i\<close>, and the
  loop then works on the metric at position \<open>i\<close> of the batch. An id that does not
  decode (a nil or empty id, a suffix that \<open>Atoi\<close> rejects) and an id that decodes to
  a number outside the batch each make the loop panic in the state it was in: nothing is
  sent for it, in particular no error sample, and no later result is processed.
\<close>

theorem result_id_position:
  "(i < 2 ^ 63 \<longrightarrow> parseId (Some (positionalId i)) = Inr (int i))
   \<and> (parseId (Id' result) = Inl p \<longrightarrow>
        resultsLoop lib metrics (result # rest) c = Panicked p c)
   \<and> (parseId (Id' result) = Inr idx \<and> (idx < 0 \<or> int (length metrics) \<le> idx) \<longrightarrow>
        resultsLoop lib metrics (result # rest) c
        = Panicked (IndexOutOfRange idx (length metrics)) c)
   \<and> (Id' result = Some (positionalId i) \<and> i < length metrics \<and> i < 2 ^ 63
        \<and> wellFormed (metrics ! i) \<and> Values result = v # vs \<longrightarrow>
        resultsLoop lib metrics (result # rest) c
        = (case collectMetric lib c (metrics ! i) v of
             Panicked p' c' \<Rightarrow> Panicked p' c'
           | Returned c' \<Rightarrow> resultsLoop lib metrics rest c'))"
proof -
  have "sprintDims (Dimensions (metrics ! i)) [] \<noteq> None" if "wellFormed (metrics ! i)"
    using that by (simp add: sprintDims_labelPairs wellFormed_def)
  then show ?thesis
    by (auto simp: parseId_positionalId Let_def)
qed

theorem result_id_position_witness:
  "parseId (Some (positionalId 3)) = Inr 3
   \<and> resultsLoop plainLib [netIn, netOut] [queryResult ''nx'' [1]] fresh
     = Panicked (AtoiError ErrSyntax) fresh
   \<and> resultsLoop plainLib [netIn, netOut] [queryResult [] [1]] fresh
     = Panicked SliceOutOfRange fresh
   \<and> resultsLoop plainLib [netIn, netOut] [queryResult ''n2'' [1]] fresh
     = Panicked (IndexOutOfRange 2 2) fresh
   \<and> resultsLoop plainLib [netIn, netOut] [queryResult ''n-1'' [1]] fresh
     = Panicked (IndexOutOfRange (- 1) 2) fresh
   \<and> resultsLoop plainLib [netIn, netOut] [queryResult (positionalId 1) [7]] fresh
     = collectMetric plainLib fresh netOut 7"
proof -
  have a: "parseId (Id' (queryResult ''nx'' [1])) = Inl (AtoiError ErrSyntax)"
    and b: "parseId (Id' (queryResult [] [1])) = Inl SliceOutOfRange"
    and c: "parseId (Id' (queryResult ''n2'' [1])) = Inr 2"
    and d: "parseId (Id' (queryResult ''n-1'' [1])) = Inr (- 1)"
    by (simp_all add: queryResult_def lib_eval)
  have e: "wellFormed ([netIn, netOut] ! 1)"
    by (simp add: eval_defs lib_eval)
  have f: "Id' (queryResult (positionalId 1) [7]) = Some (positionalId 1)"
    and g: "Values (queryResult (positionalId 1) [7]) = 7 # []"
    by (simp_all add: queryResult_def)
  show ?thesis
    using result_id_position [of 3]
      result_id_position [where result = "queryResult ''nx'' [1]" and p = "AtoiError ErrSyntax"
        and lib = plainLib and metrics = "[netIn, netOut]" and rest = "[]" and c = fresh]
      result_id_position [where result = "queryResult [] [1]" and p = SliceOutOfRange
        and lib = plainLib and metrics = "[netIn, netOut]" and rest = "[]" and c = fresh]
      result_id_position [where result = "queryResult ''n2'' [1]" and idx = 2
        and lib = plainLib and metrics = "[netIn, netOut]" and rest = "[]" and c = fresh]
      result_id_position [where result = "queryResult ''n-1'' [1]" and idx = "- 1"
        and lib = plainLib and metrics = "[netIn, netOut]" and rest = "[]" and c = fresh]
      result_id_position [where result = "queryResult (positionalId 1) [7]" and i = 1
        and v = 7 and vs = "[]"
        and lib = plainLib and metrics = "[netIn, netOut]" and rest = "[]" and c = fresh]
      a b c d e f g
    by (simp split: result.splits)
qed

section \<open>The loop of \<open>Collect\<close> processes the consecutive batches\<close>

lemma batchSize_pos: "0 < batchSize"
  by (simp add: batchSize_def)

lemma chunks_Nil: "chunks n [] = []"
  by (simp add: chunks.simps)

lemma chunks_short: "0 < n \<Longrightarrow> xs \<noteq> [] \<Longrightarrow> length xs \<le> n \<Longrightarrow> chunks n xs = [xs]"
  by (subst chunks.simps) (simp add: chunks_Nil)

lemma chunks_full: "0 < n \<Longrightarrow> length xs = n \<Longrightarrow> chunks n (xs @ ys) = xs # chunks n ys"
  by (subst chunks.simps) auto

lemma collectBatch_Nil: "collectBatch lib rep c [] = Returned c"
  by (simp add: collectBatch_def)

lemma rangeLoop_chunks:
  assumes "i < batchSize" and "length batch \<le> batchSize"
    and "min batchSize (i + length ms) \<le> length batch"
  shows "rangeLoop lib rep ms batch i c
         = runBatches lib rep c (chunks batchSize (take i batch @ ms))"
  using assms
proof (induction ms arbitrary: batch i c)
  case Nil
  then have i: "i \<le> length batch" by simp
  then have s: "sliceTo batch i = Inr (take i batch)"
    using Nil.prems(1) by (simp add: sliceTo_def)
  show ?case
  proof (cases "i = 0")
    case True
    then show ?thesis using s by (simp add: chunks_Nil collectBatch_Nil)
  next
    case False
    then have "chunks batchSize (take i batch) = [take i batch]"
      using i Nil.prems(1) by (intro chunks_short) auto
    then show ?thesis using s by (simp split: result.splits)
  qed
next
  case (Cons m rest)
  then have i: "i < length batch" by simp
  have tk: "take (Suc i) (batch[i := m]) = take i batch @ [m]"
    using i by (simp add: take_Suc_conv_app_nth)
  show ?case
  proof (cases "Suc i < batchSize")
    case True
    have "rangeLoop lib rep rest (batch[i := m]) (Suc i) c
          = runBatches lib rep c (chunks batchSize (take (Suc i) (batch[i := m]) @ rest))"
      using True Cons.prems by (intro Cons.IH) auto
    then show ?thesis using True i tk by simp
  next
    case False
    then have len: "length batch = Suc i" using i Cons.prems by simp
    then have full: "batch[i := m] = take i batch @ [m]"
      using tk by (metis length_list_update order_refl take_all)
    have ih: "rangeLoop lib rep rest (batch[i := m]) 0 c'
          = runBatches lib rep c' (chunks batchSize (take 0 (batch[i := m]) @ rest))" for c'
      using Cons.prems len by (intro Cons.IH) (auto simp: batchSize_pos)
    have "chunks batchSize (take i batch @ m # rest)
          = (take i batch @ [m]) # chunks batchSize rest"
      using chunks_full [of batchSize "take i batch @ [m]" rest] len False Cons.prems
      by (simp add: batchSize_pos)
    then show ?thesis
      using False i full ih by (simp split: result.splits)
  qed
qed

lemma Collect_chunks:
  "Collect lib rep c =
     (case ListMetrics rep (reporter c) (namespace c) (metricName c) of
        (Inl e, r') \<Rightarrow> Returned (c\<lparr>reporter := r', ch := ch c @ [InvalidMetric (errDesc c) e]\<rparr>)
      | (Inr ms, r') \<Rightarrow> runBatches lib rep (c\<lparr>reporter := r'\<rparr>) (chunks batchSize ms))"
proof -
  have "rangeLoop lib rep ms (replicate (if batchSize < length ms then batchSize else length ms) zeroMetric) 0 c'
        = runBatches lib rep c' (chunks batchSize ms)" for ms c'
    using rangeLoop_chunks [of 0 "replicate (if batchSize < length ms then batchSize else length ms) zeroMetric" ms lib rep c']
    by (simp add: batchSize_pos)
  then show ?thesis
    by (simp add: Collect_def split: prod.splits sum.splits)
qed

section \<open>A run in which the reporter keeps its promise\<close>




text \<open>
  Metrics none of whose dimension names is empty or contains a space have the same
  shape: the joined names then tell how many names there are.
\<close>

lemma Join_spaces:
  "list_all spaceFree xs
   \<Longrightarrow> length (filter (\<lambda>c. c = CHR '' '') (Join xs '' '')) = length xs - 1"
proof (induction xs "'' ''" rule: Join.induct)
  case 1
  show ?case by simp
next
  case (2 x)
  then have "filter (\<lambda>c. c = CHR '' '') x = []"
    by (auto simp: spaceFree_def filter_empty_conv)
  then show ?case by simp
next
  case (3 x y ys)
  then have "filter (\<lambda>c. c = CHR '' '') x = []"
    by (auto simp: spaceFree_def filter_empty_conv)
  then show ?case using 3 by simp
qed

lemma Join_Nil_iff:
  "list_all (\<lambda>n. n \<noteq> []) xs \<Longrightarrow> (Join xs '' '' = []) = (xs = [])"
  by (induction xs "'' ''" rule: Join.induct) simp_all

lemma sameShape_spaceFree:
  assumes "list_all (\<lambda>m. list_all (\<lambda>n. n \<noteq> [] \<and> spaceFree n) (labelNames m)) ms"
  shows "sameShape ms"
proof -
  have "length (labelNames m) = length (labelNames m')"
    if "m \<in> set ms" and "m' \<in> set ms"
      and j: "Join (labelNames m) '' '' = Join (labelNames m') '' ''" for m m'
  proof -
    have a: "list_all spaceFree (labelNames m)" "list_all (\<lambda>n. n \<noteq> []) (labelNames m)"
      and b: "list_all spaceFree (labelNames m')" "list_all (\<lambda>n. n \<noteq> []) (labelNames m')"
      using assms that(1,2) by (auto simp: list_all_iff)
    have "length (labelNames m) - 1 = length (labelNames m') - 1"
      using Join_spaces [OF a(1)] Join_spaces [OF b(1)] j by simp
    moreover have "(labelNames m = []) = (labelNames m' = [])"
      using Join_Nil_iff [OF a(2)] Join_Nil_iff [OF b(2)] j by simp
    ultimately show ?thesis by (cases "labelNames m"; cases "labelNames m'") simp_all
  qed
  then show ?thesis unfolding sameShape_def list_all_iff by blast
qed







subsection \<open>The consecutive batches\<close>

lemma chunks_unfold:
  "0 < n \<Longrightarrow> xs \<noteq> [] \<Longrightarrow> chunks n xs = take n xs # chunks n (drop n xs)"
  by (subst chunks.simps) simp


lemma chunks_bounds:
  "0 < n \<Longrightarrow> b \<in> set (chunks n xs) \<Longrightarrow> b \<noteq> [] \<and> length b \<le> n \<and> set b \<subseteq> set xs"
proof (induction n xs rule: chunks.induct)
  case (1 n xs)
  show ?case
  proof (cases "xs = []")
    case True
    then show ?thesis using "1.prems" by (simp add: chunks_Nil)
  next
    case False
    then have "b = take n xs \<or> b \<in> set (chunks n (drop n xs))"
      using "1.prems" by (simp add: chunks_unfold)
    then show ?thesis
    proof
      assume "b = take n xs"
      then show ?thesis using False "1.prems"(1) by (auto dest: in_set_takeD)
    next
      assume "b \<in> set (chunks n (drop n xs))"
      then have "b \<noteq> [] \<and> length b \<le> n \<and> set b \<subseteq> set (drop n xs)"
        using "1.IH" False "1.prems"(1) by simp
      then show ?thesis using set_drop_subset [of n xs] by blast
    qed
  qed
qed




section \<open>Batching loses nothing\<close>




section \<open>What is sent stays sent, and is aligned\<close>

lemma grows_refl: "grows ms c c"
  by (simp add: grows_def)

lemma grows_trans: "grows ms c c' \<Longrightarrow> grows ms c' c'' \<Longrightarrow> grows ms c c''"
proof -
  assume "grows ms c c'" and "grows ms c' c''"
  then obtain xs ys where
    a: "ch c' = ch c @ xs" "keyed (descMap c) \<longrightarrow> keyed (descMap c') \<and> list_all (keyAligned ms) xs"
      "descMap c \<subseteq>\<^sub>m descMap c'"
    and b: "ch c'' = ch c' @ ys" "keyed (descMap c') \<longrightarrow> keyed (descMap c'') \<and> list_all (keyAligned ms) ys"
      "descMap c' \<subseteq>\<^sub>m descMap c''"
    unfolding grows_def by blast
  have "ch c'' = ch c @ (xs @ ys)" using a(1) b(1) by simp
  moreover have "descMap c \<subseteq>\<^sub>m descMap c''" using a(3) b(3) by (rule map_le_trans)
  moreover have "keyed (descMap c) \<longrightarrow> keyed (descMap c'') \<and> list_all (keyAligned ms) (xs @ ys)"
    using a(2) b(2) by simp
  ultimately show ?thesis unfolding grows_def by blast
qed

lemma keyed_update:
  "keyed dm \<Longrightarrow> Join (variableLabels d) '' '' = k \<Longrightarrow> keyed (dm(k \<mapsto> d))"
  unfolding keyed_def by (metis fun_upd_apply option.inject)

lemma labelPairs_names_values:
  "labelPairs (Dimensions m) = Some (lns, lvs) \<Longrightarrow> labelNames m = lns \<and> labelValues m = lvs"
  by (simp add: labelNames_def labelValues_def)





lemma collectMetric_grows:
  assumes "m \<in> set ms"
  shows "grows ms c (final (collectMetric lib c m v))"
proof (cases "Namespace m")
  case None
  then show ?thesis by (simp add: collectMetric_def grows_refl)
next
  case (Some ns)
  note ns = this
  show ?thesis
  proof (cases "MetricName m")
    case None
    then show ?thesis using ns by (simp add: collectMetric_def grows_refl)
  next
    case (Some mn)
    note mn = this
    show ?thesis
    proof (cases "labelPairs (Dimensions m)")
      case None
      then show ?thesis using ns mn by (simp add: collectMetric_def grows_refl)
    next
      case (Some p)
      obtain lns lvs where p: "p = (lns, lvs)" by (cases p)
      have lp: "labelPairs (Dimensions m) = Some (lns, lvs)" using Some p by simp
      have nv: "labelNames m = lns" "labelValues m = lvs"
        using labelPairs_names_values [OF lp] by simp_all
      define key where "key = Join lns '' ''"
      define d0 where "d0 = NewDesc lib (SnakeCase lib (ReplaceAllString ns) @ ''_''
                              @ SnakeCase lib (ReplaceAllString mn))
                             (''Cloudwatch Metric '' @ ns @ ''/'' @ mn) lns"
      define desc where "desc = (case descMap c key of Some d \<Rightarrow> d | None \<Rightarrow> d0)"
      define c1 where "c1 = (case descMap c key of Some d \<Rightarrow> c
                             | None \<Rightarrow> c\<lparr>descMap := (descMap c)(key \<mapsto> d0)\<rparr>)"
      have cm: "collectMetric lib c m v =
                  (case MustNewConstMetric lib desc v lvs of
                     Inl p \<Rightarrow> Panicked p c1
                   | Inr pm \<Rightarrow> Returned (c1\<lparr>ch := ch c1 @ [pm]\<rparr>))"
        using ns mn lp
        by (simp add: collectMetric_def Let_def key_def d0_def desc_def c1_def
            split: option.splits sum.splits)
      have ch1: "ch c1 = ch c" by (simp add: c1_def split: option.splits)
      have m1: "descMap c \<subseteq>\<^sub>m descMap c1"
        by (auto simp: c1_def map_le_def split: option.splits)
      have k1: "keyed (descMap c1)" if "keyed (descMap c)"
      proof (cases "descMap c key")
        case None
        have "Join (variableLabels d0) '' '' = key" by (simp add: d0_def NewDesc_def key_def)
        then show ?thesis using that None keyed_update [of "descMap c" d0 key]
          by (simp add: c1_def)
      next
        case (Some d)
        then show ?thesis using that by (simp add: c1_def)
      qed
      have kd: "Join (variableLabels desc) '' '' = key" if "keyed (descMap c)"
      proof (cases "descMap c key")
        case None
        then show ?thesis by (simp add: desc_def d0_def NewDesc_def key_def)
      next
        case (Some d)
        then show ?thesis using that unfolding keyed_def desc_def by simp
      qed
      show ?thesis
      proof (cases "MustNewConstMetric lib desc v lvs")
        case (Inl pn)
        then have "final (collectMetric lib c m v) = c1" using cm by simp
        moreover have "grows ms c c1"
          unfolding grows_def using ch1 k1 m1 by (intro exI [of _ "[]"]) simp
        ultimately show ?thesis by simp
      next
        case (Inr pm)
        then have pm: "pm = ConstMetric desc v lvs" "length lvs = length (variableLabels desc)"
          by (auto simp: MustNewConstMetric_def split: if_splits)
        have f: "final (collectMetric lib c m v) = c1\<lparr>ch := ch c1 @ [pm]\<rparr>"
          using cm Inr by simp
        have "keyAligned ms pm" if "keyed (descMap c)"
        proof -
          have j: "Join (variableLabels desc) '' '' = Join (labelNames m) '' ''"
            using kd [OF that] nv by (simp add: key_def)
          have "lvs = labelValues m" using nv by simp
          then have "\<exists>m\<in>set ms. lvs = labelValues m
                      \<and> Join (variableLabels desc) '' '' = Join (labelNames m) '' ''"
            using assms j by blast
          then have "list_ex (\<lambda>m. lvs = labelValues m
                      \<and> Join (variableLabels desc) '' '' = Join (labelNames m) '' '') ms"
            unfolding list_ex_iff .
          then show ?thesis using pm by simp
        qed
        then have "grows ms c (c1\<lparr>ch := ch c1 @ [pm]\<rparr>)"
          unfolding grows_def using ch1 k1 m1 by (intro exI [of _ "[pm]"]) simp
        then show ?thesis using f by simp
      qed
    qed
  qed
qed

lemma grows_same:
  "ch c' = ch c \<Longrightarrow> descMap c' = descMap c \<Longrightarrow> grows ms c c'"
  unfolding grows_def by (intro exI [of _ "[]"]) simp

lemma grows_invalid:
  "ch c' = ch c @ [InvalidMetric d e] \<Longrightarrow> descMap c' = descMap c \<Longrightarrow> grows ms c c'"
  unfolding grows_def by (intro exI [of _ "[InvalidMetric d e]"]) simp

lemma resultsLoop_grows:
  assumes "set batch \<subseteq> set ms"
  shows "grows ms c (final (resultsLoop lib batch results c))"
proof (induction results arbitrary: c)
  case Nil
  show ?case by (simp add: grows_refl)
next
  case (Cons res rest)
  show ?case
  proof (cases "parseId (Id' res)")
    case (Inl p)
    then show ?thesis by (simp add: grows_refl)
  next
    case (Inr idx)
    show ?thesis
    proof (cases "idx < 0 \<or> int (length batch) \<le> idx")
      case True
      then show ?thesis using Inr by (simp add: grows_refl)
    next
      case False
      define m where "m = batch ! nat idx"
      have m: "m \<in> set ms" using False assms by (auto simp: m_def)
      show ?thesis
      proof (cases "sprintDims (Dimensions m) []")
        case None
        then show ?thesis using Inr False by (simp add: grows_refl m_def)
      next
        case (Some s)
        show ?thesis
        proof (cases "length (Values res) = 0")
          case True
          then show ?thesis using Inr False Some Cons.IH [of c] by (simp add: m_def)
        next
          case nz: False
          have g: "grows ms c (final (collectMetric lib c m (Values res ! 0)))"
            by (rule collectMetric_grows [OF m])
          show ?thesis
          proof (cases "collectMetric lib c m (Values res ! 0)")
            case (Panicked p c')
            then have "final (resultsLoop lib batch (res # rest) c) = c'"
              using Inr False Some nz by (simp add: m_def)
            then show ?thesis using g Panicked by simp
          next
            case (Returned c')
            then have "final (resultsLoop lib batch (res # rest) c)
                       = final (resultsLoop lib batch rest c')"
              using Inr False Some nz by (simp add: m_def)
            moreover have "grows ms c c'" using g Returned by simp
            ultimately show ?thesis using Cons.IH [of c'] grows_trans by metis
          qed
        qed
      qed
    qed
  qed
qed

lemma collectBatch_grows:
  assumes "set batch \<subseteq> set ms"
  shows "grows ms c (final (collectBatch lib rep c batch))"
proof (cases "length batch = 0")
  case True
  then show ?thesis by (simp add: collectBatch_def grows_refl)
next
  case False
  obtain res r' where p: "GetMetricsResults rep (reporter c) batch = (res, r')"
    by (cases "GetMetricsResults rep (reporter c) batch") blast
  define c1 where "c1 = c\<lparr>reporter := r', fetched := fetched c @ [batch]\<rparr>"
  have g1: "grows ms c c1" by (rule grows_same) (simp_all add: c1_def)
  show ?thesis
  proof (cases res)
    case (Inl e)
    then have "final (collectBatch lib rep c batch)
               = c1\<lparr>ch := ch c1 @ [InvalidMetric (errDesc c1) e]\<rparr>"
      using False p by (simp add: collectBatch_def c1_def)
    moreover have "grows ms c1 (c1\<lparr>ch := ch c1 @ [InvalidMetric (errDesc c1) e]\<rparr>)"
      by (rule grows_invalid [of _ _ "errDesc c1" e]) simp_all
    ultimately show ?thesis using g1 grows_trans by metis
  next
    case (Inr results)
    show ?thesis
    proof (cases "length results \<noteq> length batch")
      case True
      then have "final (collectBatch lib rep c batch) = c1"
        using False p Inr by (simp add: collectBatch_def c1_def)
      then show ?thesis using g1 by simp
    next
      case eq: False
      then have "final (collectBatch lib rep c batch) = final (resultsLoop lib batch results c1)"
        using False p Inr by (simp add: collectBatch_def c1_def)
      then show ?thesis
        using g1 resultsLoop_grows [OF assms, of c1 lib results] grows_trans by metis
    qed
  qed
qed

lemma runBatches_grows:
  assumes "\<forall>b\<in>set bs. set b \<subseteq> set ms"
  shows "grows ms c (final (runBatches lib rep c bs))"
  using assms
proof (induction bs arbitrary: c)
  case Nil
  show ?case by (simp add: grows_refl)
next
  case (Cons b bs)
  have b: "set b \<subseteq> set ms" and rest: "\<forall>b\<in>set bs. set b \<subseteq> set ms"
    using Cons.prems by simp_all
  have g: "grows ms c (final (collectBatch lib rep c b))"
    by (rule collectBatch_grows [OF b])
  show ?case
  proof (cases "collectBatch lib rep c b")
    case (Panicked p c')
    then show ?thesis using g by simp
  next
    case (Returned c')
    then have "grows ms c c'" using g by simp
    then have "grows ms c (final (runBatches lib rep c' bs))"
      using Cons.IH [OF rest, of c'] by (rule grows_trans)
    then show ?thesis using Returned by simp
  qed
qed

lemma runBatches_append:
  "runBatches lib rep c (xs @ ys) =
     (case runBatches lib rep c xs of
        Panicked p c' \<Rightarrow> Panicked p c'
      | Returned c' \<Rightarrow> runBatches lib rep c' ys)"
  by (induction xs arbitrary: c) (simp_all split: result.splits)

lemma chunks_fullBatch: "chunks batchSize (fullBatch @ [netOut]) = [] @ fullBatch # [[netOut]]"
proof -
  have "chunks batchSize (fullBatch @ [netOut]) = fullBatch # chunks batchSize [netOut]"
    by (rule chunks_full) (simp_all add: batchSize_pos fullBatch_def)
  moreover have "chunks batchSize [netOut] = [[netOut]]"
    by (rule chunks_short) (simp_all add: batchSize_def)
  ultimately show ?thesis by simp
qed

section \<open>Label values and label names\<close>








section \<open>The count check of a batch\<close>

lemma Collect_panics:
  assumes "ListMetrics rep (reporter c) (namespace c) (metricName c) = (Inr ms, r1)"
    and "chunks batchSize ms = pre @ b # post"
    and "runBatches lib rep (c\<lparr>reporter := r1\<rparr>) pre = Returned c1"
    and "collectBatch lib rep c1 b = Panicked p c2"
  shows "Collect lib rep c = Panicked p c2"
  using assms by (simp add: Collect_chunks runBatches_append)

text \<open>
  C5. For a non-empty batch whose fetch succeeds: if the number of results differs from
  the number of metrics, \<open>collectBatch\<close> panics with the two counts, after the fetch and
  before anything is sent (no error sample), and the panic is the outcome of the
  \<open>Collect\<close> that came to this batch: no later batch is processed. If the numbers are
  equal, \<open>collectBatch\<close> is the loop over the results, and whatever that loop does it
  never raises the panic of the count check.
\<close>

theorem collectBatch_count_check:
  assumes "metrics \<noteq> []"
    and "GetMetricsResults rep (reporter c) metrics = (Inr results, r')"
  shows "(length results \<noteq> length metrics \<longrightarrow>
            collectBatch lib rep c metrics
            = Panicked (NotSameLength (length results) (length metrics))
                (c\<lparr>reporter := r', fetched := fetched c @ [metrics]\<rparr>)
            \<and> (\<forall>c0 ms r1 pre post.
                  ListMetrics rep (reporter c0) (namespace c0) (metricName c0) = (Inr ms, r1)
                  \<and> chunks batchSize ms = pre @ metrics # post
                  \<and> runBatches lib rep (c0\<lparr>reporter := r1\<rparr>) pre = Returned c
                  \<longrightarrow> Collect lib rep c0
                      = Panicked (NotSameLength (length results) (length metrics))
                          (c\<lparr>reporter := r', fetched := fetched c @ [metrics]\<rparr>)))
       \<and> (length results = length metrics \<longrightarrow>
            collectBatch lib rep c metrics
            = resultsLoop lib metrics results (c\<lparr>reporter := r', fetched := fetched c @ [metrics]\<rparr>)
            \<and> (\<forall>a b c'. collectBatch lib rep c metrics \<noteq> Panicked (NotSameLength a b) c'))"
proof -
  have 1: "collectBatch lib rep c metrics
            = Panicked (NotSameLength (length results) (length metrics))
                (c\<lparr>reporter := r', fetched := fetched c @ [metrics]\<rparr>)"
    if "length results \<noteq> length metrics"
    using assms that by (simp add: collectBatch_def)
  have 2: "collectBatch lib rep c metrics
            = resultsLoop lib metrics results (c\<lparr>reporter := r', fetched := fetched c @ [metrics]\<rparr>)"
    if "length results = length metrics"
    using assms that by (simp add: collectBatch_def)
  have 3: "collectBatch lib rep c metrics \<noteq> Panicked (NotSameLength a b) c'"
    if "length results = length metrics" for a b c'
    using 2 [OF that] resultsLoop_not_same_length [of lib metrics results _ "NotSameLength a b" c' a b]
    by auto
  show ?thesis
    using 1 2 3 Collect_panics [of rep _ _ _ _ metrics _ lib c] by metis
qed

theorem collectBatch_count_check_witness:
  "collectBatch plainLib (fixedReporter [netIn, netOut] [queryResult ''n0'' [1]])
       (fresh\<lparr>reporter := 1\<rparr>) [netIn, netOut]
     = Panicked (NotSameLength 1 2) (fresh\<lparr>reporter := 2, fetched := [[netIn, netOut]]\<rparr>)
   \<and> Collect plainLib (fixedReporter [netIn, netOut] [queryResult ''n0'' [1]]) fresh
     = Panicked (NotSameLength 1 2) (fresh\<lparr>reporter := 2, fetched := [[netIn, netOut]]\<rparr>)
   \<and> collectBatch plainLib (fixedReporter [] [queryResult ''n1'' [], queryResult ''n0'' []]) fresh
        [netIn, netOut]
     = Returned (fresh\<lparr>reporter := 1, fetched := [[netIn, netOut]]\<rparr>)"
proof -
  have a: "[netIn, netOut] \<noteq> []" by simp
  have b: "GetMetricsResults (fixedReporter [netIn, netOut] [queryResult ''n0'' [1]])
             (reporter (fresh\<lparr>reporter := 1\<rparr>)) [netIn, netOut]
           = (Inr [queryResult ''n0'' [1]], 2)"
    by (simp add: eval_defs)
  have c: "GetMetricsResults (fixedReporter [] [queryResult ''n1'' [], queryResult ''n0'' []])
             (reporter fresh) [netIn, netOut]
           = (Inr [queryResult ''n1'' [], queryResult ''n0'' []], 1)"
    by (simp add: eval_defs)
  have d: "resultsLoop plainLib [netIn, netOut] [queryResult ''n1'' [], queryResult ''n0'' []]
             (fresh\<lparr>reporter := 1, fetched := [[netIn, netOut]]\<rparr>)
           = Returned (fresh\<lparr>reporter := 1, fetched := [[netIn, netOut]]\<rparr>)"
    by (simp add: eval_defs parseId_def Atoi_def isDigit_def maxUint64_def)
  have e: "ListMetrics (fixedReporter [netIn, netOut] [queryResult ''n0'' [1]]) (reporter fresh)
             (namespace fresh) (metricName fresh) = (Inr [netIn, netOut], 1)"
    by (simp add: eval_defs)
  have f: "chunks batchSize [netIn, netOut] = [] @ [netIn, netOut] # []"
    using chunks_short [of batchSize "[netIn, netOut]"] by (simp add: batchSize_def)
  have g: "runBatches plainLib (fixedReporter [netIn, netOut] [queryResult ''n0'' [1]])
             (fresh\<lparr>reporter := 1\<rparr>) [] = Returned (fresh\<lparr>reporter := 1\<rparr>)"
    by simp
  have l: "length [queryResult ''n0'' [1]] \<noteq> length [netIn, netOut]" by simp
  note t = collectBatch_count_check [OF a b, of plainLib]
  have 1: "collectBatch plainLib (fixedReporter [netIn, netOut] [queryResult ''n0'' [1]])
       (fresh\<lparr>reporter := 1\<rparr>) [netIn, netOut]
     = Panicked (NotSameLength 1 2) (fresh\<lparr>reporter := 2, fetched := [[netIn, netOut]]\<rparr>)"
    using t l by (simp add: fresh_def newCollector_def)
  have "Collect plainLib (fixedReporter [netIn, netOut] [queryResult ''n0'' [1]]) fresh
     = Panicked (NotSameLength (length [queryResult ''n0'' [1]]) (length [netIn, netOut]))
         (fresh\<lparr>reporter := 1\<rparr>\<lparr>reporter := 2,
            fetched := fetched (fresh\<lparr>reporter := 1\<rparr>) @ [[netIn, netOut]]\<rparr>)"
    using t l e f g by blast
  then have 2: "Collect plainLib (fixedReporter [netIn, netOut] [queryResult ''n0'' [1]]) fresh
     = Panicked (NotSameLength 1 2) (fresh\<lparr>reporter := 2, fetched := [[netIn, netOut]]\<rparr>)"
    by (simp add: fresh_def newCollector_def)
  have 3: "collectBatch plainLib (fixedReporter [] [queryResult ''n1'' [], queryResult ''n0'' []]) fresh
        [netIn, netOut]
     = Returned (fresh\<lparr>reporter := 1, fetched := [[netIn, netOut]]\<rparr>)"
    using collectBatch_count_check [OF a c, of plainLib] d
    by (simp add: fresh_def newCollector_def)
  show ?thesis using 1 2 3 by blast
qed

section \<open>A batch whose fetch fails\<close>

text \<open>
  C3. Let the listing be cut into the batches \<open>pre\<close>, then \<open>b\<close>, then \<open>post\<close>, let the
  batches \<open>pre\<close> be processed without a panic, ending in \<open>c1\<close>, and let the fetch of
  \<open>b\<close> fail with \<open>e\<close>. Then the processing of \<open>b\<close> returns, having sent exactly one
  metric, the invalid metric carrying \<open>e\<close>; \<open>Collect\<close> goes on to process the batches
  \<open>post\<close> from that state; and what it has sent in the end is what was sent before
  \<open>b\<close>, that one error sample, and what the batches \<open>post\<close> send.
\<close>

theorem Collect_batch_error:
  assumes "ListMetrics rep (reporter c) (namespace c) (metricName c) = (Inr ms, r1)"
    and "chunks batchSize ms = pre @ b # post"
    and "runBatches lib rep (c\<lparr>reporter := r1\<rparr>) pre = Returned c1"
    and "GetMetricsResults rep (reporter c1) b = (Inl e, r2)"
  shows "collectBatch lib rep c1 b
         = Returned (c1\<lparr>reporter := r2, fetched := fetched c1 @ [b],
                        ch := ch c1 @ [InvalidMetric (errDesc c1) e]\<rparr>)
       \<and> Collect lib rep c
         = runBatches lib rep (c1\<lparr>reporter := r2, fetched := fetched c1 @ [b],
                                  ch := ch c1 @ [InvalidMetric (errDesc c1) e]\<rparr>) post
       \<and> (\<exists>xs. ch (final (Collect lib rep c)) = ch c1 @ InvalidMetric (errDesc c1) e # xs)"
proof -
  define c2 where "c2 = c1\<lparr>reporter := r2, fetched := fetched c1 @ [b],
                        ch := ch c1 @ [InvalidMetric (errDesc c1) e]\<rparr>"
  have "b \<in> set (chunks batchSize ms)" using assms(2) by simp
  then have "b \<noteq> []" using chunks_bounds [OF batchSize_pos] by blast
  then have 1: "collectBatch lib rep c1 b = Returned c2"
    using assms(4) by (simp add: collectBatch_def c2_def)
  have "Collect lib rep c = runBatches lib rep (c\<lparr>reporter := r1\<rparr>) (pre @ b # post)"
    using assms(1,2) by (simp add: Collect_chunks)
  then have 2: "Collect lib rep c = runBatches lib rep c2 post"
    using assms(3) 1 by (simp add: runBatches_append)
  have "grows (concat post) c2 (final (runBatches lib rep c2 post))"
    by (rule runBatches_grows) auto
  then obtain xs where "ch (final (runBatches lib rep c2 post)) = ch c2 @ xs"
    unfolding grows_def by blast
  then have 3: "ch (final (Collect lib rep c)) = ch c1 @ InvalidMetric (errDesc c1) e # xs"
    using 2 by (simp add: c2_def)
  show ?thesis using 1 2 3 unfolding c2_def by blast
qed

theorem Collect_batch_error_witness:
  "chunks batchSize (fullBatch @ [netOut]) = [] @ fullBatch # [[netOut]]
   \<and> GetMetricsResults (flakyReporter (fullBatch @ [netOut])) (reporter (fresh\<lparr>reporter := 1\<rparr>))
       fullBatch = (Inl (Error ''Throttling''), 2)
   \<and> Collect plainLib (flakyReporter (fullBatch @ [netOut])) fresh
     = Returned (fresh\<lparr>reporter := 3, fetched := [fullBatch, [netOut]],
          descMap := [''InstanceId'' \<mapsto>
                          \<lparr>fqName = ''aws_ec2_network_out'',
                           help' = ''Cloudwatch Metric AWS/EC2/NetworkOut'',
                           variableLabels = [''InstanceId''], descErr = False\<rparr>],
          ch := [InvalidMetric (errDesc fresh) (Error ''Throttling''),
                 ConstMetric \<lparr>fqName = ''aws_ec2_network_out'',
                           help' = ''Cloudwatch Metric AWS/EC2/NetworkOut'',
                           variableLabels = [''InstanceId''], descErr = False\<rparr> 0 [''i-2'']]\<rparr>)"
proof -
  have h1: "ListMetrics (flakyReporter (fullBatch @ [netOut])) (reporter fresh) (namespace fresh)
              (metricName fresh) = (Inr (fullBatch @ [netOut]), 1)"
    by (simp add: flakyReporter_def eval_defs)
  have h3: "runBatches plainLib (flakyReporter (fullBatch @ [netOut])) (fresh\<lparr>reporter := 1\<rparr>) []
            = Returned (fresh\<lparr>reporter := 1\<rparr>)"
    by simp
  have h4: "GetMetricsResults (flakyReporter (fullBatch @ [netOut]))
              (reporter (fresh\<lparr>reporter := 1\<rparr>)) fullBatch = (Inl (Error ''Throttling''), 2)"
    by (simp add: flakyReporter_def)
  have r: "runBatches plainLib (flakyReporter (fullBatch @ [netOut]))
             (fresh\<lparr>reporter := 2, fetched := [fullBatch],
                    ch := [InvalidMetric (errDesc fresh) (Error ''Throttling'')]\<rparr>) [[netOut]]
           = Returned (fresh\<lparr>reporter := 3, fetched := [fullBatch, [netOut]],
          descMap := [''InstanceId'' \<mapsto>
                          \<lparr>fqName = ''aws_ec2_network_out'',
                           help' = ''Cloudwatch Metric AWS/EC2/NetworkOut'',
                           variableLabels = [''InstanceId''], descErr = False\<rparr>],
          ch := [InvalidMetric (errDesc fresh) (Error ''Throttling''),
                 ConstMetric \<lparr>fqName = ''aws_ec2_network_out'',
                           help' = ''Cloudwatch Metric AWS/EC2/NetworkOut'',
                           variableLabels = [''InstanceId''], descErr = False\<rparr> 0 [''i-2'']]\<rparr>)"
    by (simp add: collectBatch_def flakyReporter_def positionalId_def decimal.simps
        digitChar_def collectMetric_def Let_def eval_defs lib_eval)
  show ?thesis
    using Collect_batch_error [OF h1 chunks_fullBatch h3 h4] r chunks_fullBatch h4
    by (simp add: fresh_def newCollector_def)
qed

section \<open>The descriptor cache\<close>


lemma collectMetric_miss:
  assumes "accepted lib (descMap c) m" and "descMap c (Join (labelNames m) '' '') = None"
  shows "collectMetric lib c m v
         = Returned (c\<lparr>descMap := (descMap c)(Join (labelNames m) '' '' \<mapsto> descFor lib m),
                       ch := ch c @ [ConstMetric (descFor lib m) v (labelValues m)]\<rparr>)"
  using collectMetric_accepted [OF assms(1), of v] assms(2) by (simp add: descUsed_def)

lemma collectMetric_hit:
  assumes "accepted lib (descMap c) m" and "descMap c (Join (labelNames m) '' '') = Some d"
  shows "collectMetric lib c m v = Returned (c\<lparr>ch := ch c @ [ConstMetric d v (labelValues m)]\<rparr>)"
proof -
  have "(descMap c)(Join (labelNames m) '' '' \<mapsto> d) = descMap c"
    using assms(2) by (rule map_upd_triv)
  then show ?thesis
    using collectMetric_accepted [OF assms(1), of v] assms(2) by (simp add: descUsed_def)
qed



section \<open>The name and the labels of a descriptor\<close>

lemma ReplaceAllString_inClass: "list_all inClass (ReplaceAllString s)"
proof (induction s rule: ReplaceAllString.induct)
  case 1
  show ?case by simp
next
  case (2 c cs)
  have "inClass CHR ''_''" by (simp add: inClass_def)
  then show ?case using 2 by simp
qed

lemma ReplaceAllString_ascii:
  "list_all (\<lambda>c. (of_char c :: nat) < 128) s
   \<Longrightarrow> ReplaceAllString s = map (\<lambda>c. if inClass c then c else CHR ''_'') s"
  by (induction s) (simp_all add: Let_def)

lemma labelPairs_map:
  "labelPairs ds = Some (lns, lvs)
   \<Longrightarrow> lns = map (the \<circ> Name) ds \<and> lvs = map (the \<circ> Value) ds"
  by (induction ds arbitrary: lns lvs) (auto split: option.splits)

lemma labelNames_map:
  "wellFormed m \<Longrightarrow> labelNames m = map (the \<circ> Name) (Dimensions m)
                     \<and> labelValues m = map (the \<circ> Value) (Dimensions m)"
  using labelPairs_map [of "Dimensions m"]
  by (auto simp: wellFormed_def labelNames_def labelValues_def)

text \<open>
  C7, as stated, fails: in a scrape that lists \<open>netIn\<close> and then \<open>netOut\<close>, which have
  the same dimension names, the sample of \<open>netOut\<close> is sent under the descriptor named
  after \<open>netIn\<close>, not under the name computed from its own namespace and name.
\<close>

theorem descriptor_name_counterexample:
  "Collect plainLib (mockReporter [netIn, netOut]) fresh
     = Returned (fresh\<lparr>reporter := 2, fetched := [[netIn, netOut]],
                       descMap := [''InstanceId'' \<mapsto> netInDesc],
                       ch := [ConstMetric netInDesc 0 [''i-1''], ConstMetric netInDesc 1 [''i-2'']]\<rparr>)
   \<and> fqName netInDesc \<noteq> SnakeCase plainLib (ReplaceAllString (the (Namespace netOut))) @ ''_''
                          @ SnakeCase plainLib (ReplaceAllString (the (MetricName netOut)))"
  by (simp add: Collect_def batchSize_def sliceTo_def collectBatch_def mockReporter_def
      positionalId_def decimal.simps digitChar_def collectMetric_def Let_def zeroMetric_def
      netInDesc_def eval_defs lib_eval)

text \<open>
  C7, amended. When no descriptor is cached under the metric's joined dimension names,
  the sample is sent under a new descriptor whose name is the snake case of the
  namespace, an underscore, and the snake case of the metric name, each after the
  replacement, and whose label names are the dimension names, verbatim and in order;
  when one is cached, the sample is sent under that one as it is. The label values are
  the dimension values in order. The replacement leaves only characters of the class
  \<^verbatim>\<open>[a-zA-Z0-9_:]\<close>, and on ASCII input it keeps the characters of the class and puts
  an underscore for every other.
\<close>

theorem descriptor_of_sample:
  assumes "accepted lib (descMap c) m"
  shows "(descMap c (Join (labelNames m) '' '') = None \<longrightarrow>
           (\<exists>d. collectMetric lib c m v
                  = Returned (c\<lparr>descMap := (descMap c)(Join (labelNames m) '' '' \<mapsto> d),
                                ch := ch c @ [ConstMetric d v (labelValues m)]\<rparr>)
              \<and> fqName d = SnakeCase lib (ReplaceAllString (the (Namespace m))) @ ''_''
                            @ SnakeCase lib (ReplaceAllString (the (MetricName m)))
              \<and> variableLabels d = map (the \<circ> Name) (Dimensions m)))
       \<and> (\<forall>d. descMap c (Join (labelNames m) '' '') = Some d \<longrightarrow>
             collectMetric lib c m v
             = Returned (c\<lparr>ch := ch c @ [ConstMetric d v (labelValues m)]\<rparr>))
       \<and> labelValues m = map (the \<circ> Value) (Dimensions m)
       \<and> list_all inClass (ReplaceAllString s)
       \<and> (list_all (\<lambda>c. (of_char c :: nat) < 128) s \<longrightarrow>
            ReplaceAllString s = map (\<lambda>c. if inClass c then c else CHR ''_'') s)"
proof -
  have wf: "wellFormed m" using assms by (simp add: accepted_def)
  have 1: "descMap c (Join (labelNames m) '' '') = None \<longrightarrow>
           (\<exists>d. collectMetric lib c m v
                  = Returned (c\<lparr>descMap := (descMap c)(Join (labelNames m) '' '' \<mapsto> d),
                                ch := ch c @ [ConstMetric d v (labelValues m)]\<rparr>)
              \<and> fqName d = SnakeCase lib (ReplaceAllString (the (Namespace m))) @ ''_''
                            @ SnakeCase lib (ReplaceAllString (the (MetricName m)))
              \<and> variableLabels d = map (the \<circ> Name) (Dimensions m))"
  proof
    assume "descMap c (Join (labelNames m) '' '') = None"
    then have "collectMetric lib c m v
         = Returned (c\<lparr>descMap := (descMap c)(Join (labelNames m) '' '' \<mapsto> descFor lib m),
                       ch := ch c @ [ConstMetric (descFor lib m) v (labelValues m)]\<rparr>)"
      using assms collectMetric_miss by blast
    moreover have "fqName (descFor lib m)
                   = SnakeCase lib (ReplaceAllString (the (Namespace m))) @ ''_''
                     @ SnakeCase lib (ReplaceAllString (the (MetricName m)))"
      by (simp add: descFor_def NewDesc_def)
    moreover have "variableLabels (descFor lib m) = map (the \<circ> Name) (Dimensions m)"
      using labelNames_map [OF wf] by (simp add: descFor_def NewDesc_def)
    ultimately show "\<exists>d. collectMetric lib c m v
                  = Returned (c\<lparr>descMap := (descMap c)(Join (labelNames m) '' '' \<mapsto> d),
                                ch := ch c @ [ConstMetric d v (labelValues m)]\<rparr>)
              \<and> fqName d = SnakeCase lib (ReplaceAllString (the (Namespace m))) @ ''_''
                            @ SnakeCase lib (ReplaceAllString (the (MetricName m)))
              \<and> variableLabels d = map (the \<circ> Name) (Dimensions m)"
      by blast
  qed
  have 2: "\<forall>d. descMap c (Join (labelNames m) '' '') = Some d \<longrightarrow>
             collectMetric lib c m v
             = Returned (c\<lparr>ch := ch c @ [ConstMetric d v (labelValues m)]\<rparr>)"
    using assms collectMetric_hit by blast
  have 3: "labelValues m = map (the \<circ> Value) (Dimensions m)"
    using labelNames_map [OF wf] by simp
  show ?thesis
    using 1 2 3 ReplaceAllString_inClass [of s] ReplaceAllString_ascii [of s] by blast
qed

theorem descriptor_of_sample_witness:
  "accepted plainLib (descMap fresh) netOut
   \<and> descMap fresh (Join (labelNames netOut) '' '') = None
   \<and> (\<exists>d. collectMetric plainLib fresh netOut 7
            = Returned (fresh\<lparr>descMap := [''InstanceId'' \<mapsto> d],
                              ch := [ConstMetric d 7 [''i-2'']]\<rparr>)
          \<and> fqName d = ''aws_ec2_network_out'' \<and> variableLabels d = [''InstanceId''])
   \<and> ReplaceAllString ''AWS/EC2'' = ''AWS_EC2''"
proof -
  have a: "accepted plainLib (descMap fresh) netOut"
    and b: "descMap fresh (Join (labelNames netOut) '' '') = None"
    and c: "list_all (\<lambda>c. (of_char c :: nat) < 128) ''AWS/EC2''"
    by (simp_all add: eval_defs lib_eval)
  show ?thesis
    using descriptor_of_sample [OF a, of 7 "''AWS/EC2''"] a b c
    by (simp add: eval_defs lib_eval)
qed

section \<open>What the decoding of ids does not check\<close>

text \<open>
  C10. The first byte of an id plays no part in its decoding; and a batch of four
  metrics answered with the ids n0, x3, n3, n3 is processed without a panic: the metric
  at position 3 is sent three times, the metrics at positions 1 and 2 not at all.
\<close>

theorem result_ids_unchecked:
  "parseId (Some (a # s)) = parseId (Some (b # s))
   \<and> collectBatch plainLib
        (fixedReporter [] [queryResult ''n0'' [1], queryResult ''x3'' [2],
                           queryResult ''n3'' [3], queryResult ''n3'' [4]])
        fresh [inst ''i-0'', inst ''i-1'', inst ''i-2'', inst ''i-3'']
     = Returned (fresh\<lparr>reporter := 1,
          fetched := [[inst ''i-0'', inst ''i-1'', inst ''i-2'', inst ''i-3'']],
          descMap := [''InstanceId'' \<mapsto> netInDesc],
          ch := [ConstMetric netInDesc 1 [''i-0''], ConstMetric netInDesc 2 [''i-3''],
                 ConstMetric netInDesc 3 [''i-3''], ConstMetric netInDesc 4 [''i-3'']]\<rparr>)"
proof -
  have "parseId (Some (a # s)) = parseId (Some (b # s))" by (simp add: parseId_def)
  moreover have "collectBatch plainLib
        (fixedReporter [] [queryResult ''n0'' [1], queryResult ''x3'' [2],
                           queryResult ''n3'' [3], queryResult ''n3'' [4]])
        fresh [inst ''i-0'', inst ''i-1'', inst ''i-2'', inst ''i-3'']
     = Returned (fresh\<lparr>reporter := 1,
          fetched := [[inst ''i-0'', inst ''i-1'', inst ''i-2'', inst ''i-3'']],
          descMap := [''InstanceId'' \<mapsto> netInDesc],
          ch := [ConstMetric netInDesc 1 [''i-0''], ConstMetric netInDesc 2 [''i-3''],
                 ConstMetric netInDesc 3 [''i-3''], ConstMetric netInDesc 4 [''i-3'']]\<rparr>)"
    by (simp add: collectBatch_def collectMetric_def Let_def inst_def netInDesc_def
        eval_defs lib_eval)
  ultimately show ?thesis by blast
qed

end
